theory Spec2Isabelle
  imports Main "HOL-Library.Word" "HOL-Library.While_Combinator"
begin

unbundle bit_operations_syntax

section \<open>Cluster-address correction (\<open>get_cluster\<close>)\<close>

text \<open>
  Python integers are unbounded, so they are HOL integers, and \<open>//\<close> is the flooring
  \<open>div\<close>.  The body of \<open>get_cluster\<close> is a \<open>while\<close> loop over the pair
  (\<open>startclust\<close>, \<open>rst\<close>); the loop is the function \<open>get_cluster_loop\<close>, whose third
  argument is the running value of \<open>rst\<close>.
\<close>

function get_cluster_loop :: "int \<Rightarrow> int \<Rightarrow> int \<Rightarrow> int" where
  "get_cluster_loop startclust offset rst =
     (if startclust \<ge> 170
      then (let startclust' = startclust div 170
            in get_cluster_loop startclust' offset (rst + (startclust' + 1) * offset))
      else rst)"
  by pat_completeness auto
termination
  by (relation "measure (\<lambda>(startclust, offset, rst). nat startclust)") auto

definition get_cluster :: "int \<Rightarrow> int \<Rightarrow> int" where
  "get_cluster startclust offset = get_cluster_loop startclust offset 0"

text \<open>
  The same loop with nothing assumed about its termination: a run that never leaves the
  loop has the value \<open>None\<close>.
\<close>

partial_function (option) get_cluster_run :: "int \<Rightarrow> int \<Rightarrow> int \<Rightarrow> int option" where
  "get_cluster_run startclust offset rst =
     (if startclust \<ge> 170
      then get_cluster_run (startclust div 170) offset
             (rst + (startclust div 170 + 1) * offset)
      else Some rst)"

text \<open>
  The correction as the specification words it: an accumulator that starts at 0; while
  \<open>c \<ge> 170\<close>, \<open>c\<close> becomes \<open>c div 170\<close> and \<open>(c + 1) * s\<close> (with the new \<open>c\<close>) is
  added to the accumulator; the accumulator is returned.
\<close>

definition correction :: "int \<Rightarrow> int \<Rightarrow> int" where
  "correction c s =
     snd (while (\<lambda>(c, acc). c \<ge> 170)
                (\<lambda>(c, acc). (c div 170, acc + (c div 170 + 1) * s))
                (c, 0))"

section \<open>Bytes, text and the archive file\<close>

text \<open>
  A \<open>bytes\<close> value is a list of 8-bit words.  A Python \<open>str\<close> is a list of Unicode code
  points, each a natural number; a literal of the source is written \<open>lit ''...''\<close>.
  A slice \<open>xs[a:b]\<close> with \<open>0 \<le> a \<le> b\<close> is \<open>slice a b xs\<close>: it is shorter than
  \<open>b - a\<close> when the list ends early, as in Python.
\<close>

type_synonym byte = "8 word"
type_synonym bytes = "byte list"
type_synonym ustr = "nat list"

definition lit :: "string \<Rightarrow> ustr" where
  "lit s = map of_char s"

definition slice :: "nat \<Rightarrow> nat \<Rightarrow> 'a list \<Rightarrow> 'a list" where
  "slice a b xs = take (b - a) (drop a xs)"

text \<open>The exceptions the modelled code can raise.\<close>

datatype error =
    IndexError | StructError | UnicodeDecodeError | KeyError | OSError | TypeError

text \<open>
  \<open>"%i" % n\<close> and \<open>hex(n)\<close>: decimal digits, and lower-case hexadecimal digits after
  \<open>0x\<close>; a negative number has a leading minus sign.
\<close>

fun digits :: "nat \<Rightarrow> nat \<Rightarrow> ustr" where
  "digits b n =
     (let d = n mod b; c = (if d < 10 then 48 + d else 87 + d)
      in if b < 2 \<or> n < b then [c] else digits b (n div b) @ [c])"

definition str_int :: "int \<Rightarrow> ustr" where
  "str_int n = (if n < 0 then lit ''-'' @ digits 10 (nat (- n)) else digits 10 (nat n))"

definition hex :: "int \<Rightarrow> ustr" where
  "hex n = (if n < 0 then lit ''-0x'' @ digits 16 (nat (- n))
            else lit ''0x'' @ digits 16 (nat n))"

text \<open>
  \<open>bytes.decode("utf-8")\<close>, strict: \<open>None\<close> stands for \<open>UnicodeDecodeError\<close>.  Lead bytes
  \<open>C2..DF\<close> take one continuation byte, \<open>E0..EF\<close> two and \<open>F0..F4\<close> three; overlong
  forms, surrogates and code points above \<open>10FFFF\<close> are refused through the range of the
  first continuation byte.  \<open>utf8_tail n bs\<close> reads the continuation bytes that
  follow a lead byte of value \<open>n\<close>: the code point, and how many bytes of \<open>bs\<close> it
  took.
\<close>

definition cont :: "byte \<Rightarrow> bool" where
  "cont c = (0x80 \<le> unat c \<and> unat c \<le> 0xBF)"

definition second_ok :: "nat \<Rightarrow> byte \<Rightarrow> bool" where
  "second_ok lead c =
     (let lo = (if lead = 0xE0 then 0xA0 else if lead = 0xF0 then 0x90 else 0x80);
          hi = (if lead = 0xED then 0x9F else if lead = 0xF4 then 0x8F else 0xBF)
      in lo \<le> unat c \<and> unat c \<le> hi)"

definition utf8_tail :: "nat \<Rightarrow> bytes \<Rightarrow> (nat \<times> nat) option" where
  "utf8_tail n bs =
     (if n < 0x80 then Some (n, 0)
      else if 0xC2 \<le> n \<and> n \<le> 0xDF then
        (case bs of
           c1 # r \<Rightarrow>
             if cont c1
             then Some ((n - 0xC0) * 64 + (unat c1 - 0x80), 1)
             else None
         | _ \<Rightarrow> None)
      else if 0xE0 \<le> n \<and> n \<le> 0xEF then
        (case bs of
           c1 # c2 # r \<Rightarrow>
             if second_ok n c1 \<and> cont c2
             then Some ((n - 0xE0) * 4096 + (unat c1 - 0x80) * 64 + (unat c2 - 0x80), 2)
             else None
         | _ \<Rightarrow> None)
      else if 0xF0 \<le> n \<and> n \<le> 0xF4 then
        (case bs of
           c1 # c2 # c3 # r \<Rightarrow>
             if second_ok n c1 \<and> cont c2 \<and> cont c3
             then Some ((n - 0xF0) * 262144 + (unat c1 - 0x80) * 4096
                        + (unat c2 - 0x80) * 64 + (unat c3 - 0x80), 3)
             else None
         | _ \<Rightarrow> None)
      else None)"

fun utf8_decode :: "bytes \<Rightarrow> ustr option" where
  "utf8_decode [] = Some []"
| "utf8_decode (b # bs) =
     (case utf8_tail (unat b) bs of
        None \<Rightarrow> None
      | Some (c, k) \<Rightarrow> map_option ((#) c) (utf8_decode (drop k bs)))"

text \<open>
  What the program does to the world, in order: a line printed on standard output, a
  string written to the information text file, \<open>os.chdir\<close>, \<open>do_mkdir\<close>, a file opened
  for writing, written and closed, and \<open>do_utime\<close> with the two packed times.  The calls
  to the host are recorded with their arguments; their failures (a full disk, a refused
  \<open>chdir\<close>) are outside the model.
\<close>

datatype event =
    Print ustr
  | TxtWrite ustr
  | Chdir ustr
  | Mkdir ustr
  | WriteFile ustr bytes
  | Utime ustr int int

text \<open>
  The archive is opened read-only: its bytes never change, and only the read position
  and the trace of events do.  \<open>seek\<close> to a negative offset raises \<open>OSError\<close>; \<open>read\<close>
  past the end returns what is there.
\<close>

record io =
  fpos :: nat
  trace :: "event list"

definition emit :: "event \<Rightarrow> 'a io_scheme \<Rightarrow> 'a io_scheme" where
  "emit e st = st\<lparr>trace := trace st @ [e]\<rparr>"

definition emits :: "event list \<Rightarrow> 'a io_scheme \<Rightarrow> 'a io_scheme" where
  "emits es st = st\<lparr>trace := trace st @ es\<rparr>"

definition seek :: "int \<Rightarrow> 'a io_scheme \<Rightarrow> error \<times> 'a io_scheme + 'a io_scheme" where
  "seek p st = (if p < 0 then Inl (OSError, st) else Inr (st\<lparr>fpos := nat p\<rparr>))"

definition read :: "bytes \<Rightarrow> nat \<Rightarrow> 'a io_scheme \<Rightarrow> bytes \<times> 'a io_scheme" where
  "read infile n st =
     (let buf = take n (drop (fpos st) infile)
      in (buf, st\<lparr>fpos := fpos st + length buf\<rparr>))"

section \<open>Metadata text (\<open>strip_blanks\<close>, \<open>dump_info\<close>) and the content type\<close>

definition rstrip :: "ustr \<Rightarrow> ustr \<Rightarrow> ustr" where
  "rstrip chars s = rev (dropWhile (\<lambda>c. c \<in> set chars) (rev s))"

definition lstrip :: "ustr \<Rightarrow> ustr \<Rightarrow> ustr" where
  "lstrip chars s = dropWhile (\<lambda>c. c \<in> set chars) s"

text \<open>
  The two character sets of \<open>strip_blanks\<close>: \<open>"\0 \t\n\r\v\f\377"\<close> at the end, and the
  same without \<open>\0\<close> at the beginning.
\<close>

definition trailing_blanks :: ustr where
  "trailing_blanks = [0, 32, 9, 10, 13, 11, 12, 255]"

definition leading_blanks :: ustr where
  "leading_blanks = [32, 9, 10, 13, 11, 12, 255]"

definition strip_blanks :: "ustr \<Rightarrow> ustr" where
  "strip_blanks instring =
     (let rstr = rstrip trailing_blanks instring in lstrip leading_blanks rstr)"

definition lang :: "ustr list" where
  "lang = map lit [''English'', ''Japanese'', ''German'', ''French'', ''Spanish'',
                   ''Italian'', ''Korean'', ''Chinese'', ''Portuguese'']"

text \<open>
  One iteration of the loop of \<open>dump_info\<close> for the language name \<open>l\<close>, and the loop
  over \<open>range(9)\<close>.
\<close>

definition dump_info_slot ::
  "bytes \<Rightarrow> ustr \<Rightarrow> io \<Rightarrow> error \<times> io + io" where
  "dump_info_slot infile l st =
     (case read infile 0x100 st of
        (raw, st1) \<Rightarrow>
          (case utf8_decode raw of
             None \<Rightarrow> Inl (UnicodeDecodeError, st1)
           | Some text \<Rightarrow>
               (let info = strip_blanks text
                in if length info > 0
                   then Inr (emit (TxtWrite (l @ lit '':'' @ info)) st1)
                   else Inr st1)))"

fun dump_info_loop :: "bytes \<Rightarrow> ustr list \<Rightarrow> io \<Rightarrow> error \<times> io + io" where
  "dump_info_loop infile [] st = Inr st"
| "dump_info_loop infile (l # ls) st =
     (case dump_info_slot infile l st of
        Inl e \<Rightarrow> Inl e
      | Inr st' \<Rightarrow> dump_info_loop infile ls st')"

definition dump_info :: "bytes \<Rightarrow> ustr \<Rightarrow> io \<Rightarrow> error \<times> io + io" where
  "dump_info infile what st =
     dump_info_loop infile (map (\<lambda>i. lang ! i) [0..<9])
       (emit (TxtWrite (lit ''\<newline>'' @ what @ lit '':'')) st)"

text \<open>
  The \<open>if\<close>/\<open>elif\<close> chain of \<open>write_common_part\<close> on the content type, a 32-bit unsigned
  field: the string written to the text file.  A test \<open>content_type & m\<close> is true when
  the result is not 0.
\<close>

definition content_type_text :: "32 word \<Rightarrow> string" where
  "content_type_text content_type =
     (if content_type = 0 then ''(no type)''
      else if content_type AND 0x00000001 \<noteq> 0 then ''Game save''
      else if content_type AND 0x00000002 \<noteq> 0 then ''Game add-on''
      else if content_type AND 0x00030000 \<noteq> 0 then ''Theme''
      else if content_type AND 0x00090000 \<noteq> 0 then ''Video clip''
      else if content_type AND 0x000C0000 \<noteq> 0 then ''Game trailer''
      else if content_type AND 0x000D0000 \<noteq> 0 then ''XBox Live Arcade''
      else if content_type AND 0x00010000 \<noteq> 0 then ''Gamer profile''
      else if content_type AND 0x00020000 \<noteq> 0 then ''Gamer picture''
      else if content_type AND 0x00040000 \<noteq> 0 then ''System update''
      else if content_type AND 0x00080000 \<noteq> 0 then ''Full game demo''
      else ''(unknown)'')"

text \<open>
  The classification as the specification words it: the table of masks in precedence
  order, the label of the first mask that intersects the value, "no type" for 0 and
  "unknown" when no mask intersects.  The labels are the strings the program writes.
\<close>

definition content_type_tests :: "(32 word \<times> string) list" where
  "content_type_tests =
     [(0x00000001, ''Game save''), (0x00000002, ''Game add-on''),
      (0x00030000, ''Theme''), (0x00090000, ''Video clip''),
      (0x000C0000, ''Game trailer''), (0x000D0000, ''XBox Live Arcade''),
      (0x00010000, ''Gamer profile''), (0x00020000, ''Gamer picture''),
      (0x00040000, ''System update''), (0x00080000, ''Full game demo'')]"

definition first_match :: "32 word \<Rightarrow> string" where
  "first_match v =
     (if v = 0 then ''(no type)''
      else case find (\<lambda>(m, l). v AND m \<noteq> 0) content_type_tests of
             Some (m, l) \<Rightarrow> l
           | None \<Rightarrow> ''(unknown)'')"

section \<open>The directory scan (\<open>fill_directory\<close>)\<close>

text \<open>
  \<open>struct.unpack\<close> raises \<open>struct.error\<close> unless the buffer has exactly the size of the
  format.  Format \<open><40sBHBHBHB\<close> (50 bytes, little-endian, unaligned) and format
  \<open>>HLLL\<close> (14 bytes, big-endian) give the fields of a directory record; the three
  24-bit fields are completed with their high bytes as the source does.
\<close>

definition le16 :: "byte \<Rightarrow> byte \<Rightarrow> int" where
  "le16 b0 b1 = uint b0 + 256 * uint b1"

definition be16 :: "byte \<Rightarrow> byte \<Rightarrow> int" where
  "be16 b0 b1 = 256 * uint b0 + uint b1"

definition be32 :: "byte \<Rightarrow> byte \<Rightarrow> byte \<Rightarrow> byte \<Rightarrow> int" where
  "be32 b0 b1 b2 b3 = 16777216 * uint b0 + 65536 * uint b1 + 256 * uint b2 + uint b3"

record dirent =
  outname :: bytes
  namelen :: int
  clustsize1 :: int
  clustsize2 :: int
  startclust :: int
  pathind :: int
  filelen :: int
  dati1 :: int
  dati2 :: int

definition unpack_dirent :: "bytes \<Rightarrow> error + dirent" where
  "unpack_dirent cur =
     (let lo = slice 0 50 cur; hi = slice 50 64 cur
      in if length lo \<noteq> 50 then Inl StructError
         else if length hi \<noteq> 14 then Inl StructError
         else Inr \<lparr>outname = take 40 lo,
                   namelen = uint (lo ! 40),
                   clustsize1 = le16 (lo ! 41) (lo ! 42) + push_bit 16 (uint (lo ! 43)),
                   clustsize2 = le16 (lo ! 44) (lo ! 45) + push_bit 16 (uint (lo ! 46)),
                   startclust = le16 (lo ! 47) (lo ! 48) + push_bit 16 (uint (lo ! 49)),
                   pathind = be16 (hi ! 0) (hi ! 1),
                   filelen = be32 (hi ! 2) (hi ! 3) (hi ! 4) (hi ! 5),
                   dati1 = be32 (hi ! 6) (hi ! 7) (hi ! 8) (hi ! 9),
                   dati2 = be32 (hi ! 10) (hi ! 11) (hi ! 12) (hi ! 13)\<rparr>)"

text \<open>
  The locals of \<open>fill_directory\<close> that live across iterations, on top of the archive's
  read position and the trace: the dictionary \<open>paths\<close> and \<open>oldpathind\<close>.
\<close>

record fd = io +
  paths :: "int \<rightharpoonup> ustr"
  oldpathind :: int

text \<open>
  The block-reading loop of a file record (\<open>while filelen > 0\<close>).  Its state is
  \<open>adstart\<close>, \<open>startclust\<close> (here \<open>clust\<close>), \<open>filelen\<close> (here \<open>len\<close>) and \<open>buf\<close>; the
  list \<open>reads\<close> keeps, for every iteration, the offset sought and the number of bytes
  asked of \<open>read\<close>.  The result is \<open>buf\<close>, \<open>reads\<close> and the last value of \<open>filelen\<close>.
\<close>

function read_blocks ::
  "bytes \<Rightarrow> int \<Rightarrow> int \<Rightarrow> int \<Rightarrow> int \<Rightarrow> bytes \<Rightarrow> (int \<times> int) list \<Rightarrow> 'a io_scheme
   \<Rightarrow> error \<times> 'a io_scheme + (bytes \<times> (int \<times> int) list \<times> int) \<times> 'a io_scheme" where
  "read_blocks infile offset adstart clust len buf reads st =
     (if len > 0 then
        (let realstart = adstart + get_cluster clust offset
         in case seek realstart st of
              Inl e \<Rightarrow> Inl e
            | Inr st1 \<Rightarrow>
                (case read infile (nat (min 0x1000 len)) st1 of
                   (chunk, st2) \<Rightarrow>
                     read_blocks infile offset (adstart + 0x1000) (clust + 1)
                       (len - 0x1000) (buf @ chunk)
                       (reads @ [(realstart, min 0x1000 len)]) st2))
      else Inr ((buf, reads, len), st))"
  by pat_completeness auto
termination
  by (relation "measure (\<lambda>(infile, offset, adstart, clust, len, buf, reads, st).
                           nat len)") auto

text \<open>
  The reads of the loop as the specification words them: iteration \<open>i\<close> (from 0) asks for
  \<open>min(4096, remaining)\<close> bytes at \<open>advertisedStart + correction(currentCluster,
  blockStep)\<close>, where the current cluster is the starting cluster plus \<open>i\<close>, the
  advertised start has grown by \<open>4096 * i\<close> and the remaining length has shrunk by
  \<open>4096 * i\<close>; there are as many iterations as 4096-byte chunks cover the length.
\<close>

definition chunk_count :: "int \<Rightarrow> nat" where
  "chunk_count len = nat ((len + 0xFFF) div 0x1000)"

definition chunk_reads :: "int \<Rightarrow> int \<Rightarrow> int \<Rightarrow> int \<Rightarrow> (int \<times> int) list" where
  "chunk_reads offset adstart clust len =
     map (\<lambda>i. (adstart + 0x1000 * int i + get_cluster (clust + int i) offset,
               min 0x1000 (len - 0x1000 * int i)))
         [0..<chunk_count len]"

definition chunk_bytes :: "bytes \<Rightarrow> (int \<times> int) list \<Rightarrow> bytes" where
  "chunk_bytes infile reads =
     concat (map (\<lambda>(p, n). take (nat n) (drop (nat p) infile)) reads)"

text \<open>
  Lines 311 to 341: what happens to a record that passed every check.  \<open>i\<close> is the index
  of the record, \<open>name\<close> its decoded name.  A key missing from \<open>paths\<close> raises
  \<open>KeyError\<close>.
\<close>

definition change_dir :: "dirent \<Rightarrow> fd \<Rightarrow> error \<times> fd + fd" where
  "change_dir d st =
     (if pathind d \<noteq> oldpathind st then
        (case paths st (oldpathind st) of
           None \<Rightarrow> Inl (KeyError, st)
         | Some old \<Rightarrow>
             (let st1 = emits (replicate (count_list old 47) (Chdir (lit ''..''))) st
              in case paths st1 (pathind d) of
                   None \<Rightarrow> Inl (KeyError, st1)
                 | Some new \<Rightarrow> Inr ((emit (Chdir new) st1)\<lparr>oldpathind := pathind d\<rparr>)))
      else Inr st)"


definition materialize ::
  "bytes \<Rightarrow> bool \<Rightarrow> int \<Rightarrow> int \<Rightarrow> nat \<Rightarrow> dirent \<Rightarrow> ustr \<Rightarrow> fd \<Rightarrow> error \<times> fd + fd" where
  "materialize infile txtfile start offset i d name st =
     (case change_dir d st of
        Inl e \<Rightarrow> Inl e
      | Inr st1 \<Rightarrow>
          if namelen d AND 0x80 = 0x80 then
            (case paths st1 (pathind d) of
               None \<Rightarrow> Inl (KeyError, st1)
             | Some parent \<Rightarrow>
                 Inr (emit (Utime name (dati2 d) (dati1 d))
                       (emit (Mkdir name)
                         (st1\<lparr>paths := (paths st1)(int i \<mapsto> parent @ name @ lit ''/'')\<rparr>))))
          else
            (let adstart = startclust d * 0x1000 + start;
                 st2 = (if txtfile
                        then emit (TxtWrite (lit ''Starting: advertized'' @ hex adstart)) st1
                        else st1)
             in case read_blocks infile offset adstart (startclust d) (filelen d) [] [] st2 of
                  Inl e \<Rightarrow> Inl e
                | Inr ((buf, reads, rest), st3) \<Rightarrow>
                    Inr (emit (Utime name (dati2 d) (dati1 d))
                          (emit (WriteFile name buf) st3))))"

text \<open>The four messages printed when a record is skipped.\<close>

definition msg_namelen :: "int \<Rightarrow> ustr" where
  "msg_namelen nlen =
     lit ''Filename length ('' @ str_int nlen @ lit '') out of range, skipping file.''"

definition msg_clustsize :: "int \<Rightarrow> int \<Rightarrow> ustr" where
  "msg_clustsize c1 c2 =
     lit ''Cluster sizes don'' @ [39] @ lit ''t match ('' @ str_int c1 @ lit '' != ''
       @ str_int c2 @ lit ''), skipping file.''"

definition msg_startclust :: ustr where
  "msg_startclust = lit ''Starting cluster must be 1 or greater, skipping file.''"

definition msg_filelen :: "int \<Rightarrow> int \<Rightarrow> ustr" where
  "msg_filelen len c1 =
     lit ''File length ('' @ str_int len @ lit '') is greater than the size in clusters (''
       @ str_int c1 @ lit ''), skipping file.''"

text \<open>
  Lines 281 to 341: the body of the loop after the record is unpacked.  \<open>continue\<close> and
  the end of the body both go on to the next record, so the result is the new state, or
  the exception raised with the state it was raised in.
\<close>

definition txt_entry :: "dirent \<Rightarrow> ustr \<Rightarrow> event list" where
  "txt_entry d name =
     [TxtWrite (if namelen d AND 0x80 = 0x80 then lit ''Directory'' else lit ''File''),
      TxtWrite (lit ''name:'' @ name)]
     @ (if namelen d AND 0x40 = 0x40 then [TxtWrite (lit ''Bit 6 of namelen is set.'')]
        else [])"

definition process_entry ::
  "bytes \<Rightarrow> bool \<Rightarrow> bool \<Rightarrow> int \<Rightarrow> int \<Rightarrow> nat \<Rightarrow> dirent \<Rightarrow> fd \<Rightarrow> error \<times> fd + fd" where
  "process_entry infile txtfile makedir start offset i d st =
     (if \<not> makedir then Inr st
      else
        (let nlen = namelen d AND NOT 0xC0 in
         if nlen < 1 \<or> nlen > 40 then Inr (emit (Print (msg_namelen nlen)) st)
         else
           (case utf8_decode (slice 0 (nat nlen) (outname d)) of
              None \<Rightarrow> Inl (UnicodeDecodeError, st)
            | Some name \<Rightarrow>
                (let st1 = (if txtfile then emits (txt_entry d name) st else st) in
                 if clustsize1 d \<noteq> clustsize2 d
                 then Inr (emit (Print (msg_clustsize (clustsize1 d) (clustsize2 d))) st1)
                 else if startclust d < 1 \<and> namelen d AND 0x80 = 0
                 then Inr (emit (Print msg_startclust) st1)
                 else if filelen d > 0x1000 * clustsize1 d
                 then Inr (emit (Print (msg_filelen (filelen d) (clustsize1 d))) st1)
                 else materialize infile txtfile start offset i d name st1))))"





text \<open>
  One iteration of \<open>for i in range(...)\<close>: the record is cut out of \<open>contents\<close>, its
  byte 40 is read (\<open>IndexError\<close> when the record has no byte 40), a zero there leaves the
  loop, and otherwise the record is unpacked and processed.
\<close>

datatype control = Break | Next

definition loop_body ::
  "bytes \<Rightarrow> bool \<Rightarrow> bytes \<Rightarrow> bool \<Rightarrow> int \<Rightarrow> int \<Rightarrow> nat \<Rightarrow> fd
   \<Rightarrow> error \<times> fd + control \<times> fd" where
  "loop_body infile txtfile contents makedir start offset i st =
     (let cur = slice (i * 64) ((i + 1) * 64) contents in
      if length cur \<le> 40 then Inl (IndexError, st)
      else if cur ! 40 = 0 then Inr (Break, st)
      else
        (case unpack_dirent cur of
           Inl e \<Rightarrow> Inl (e, st)
         | Inr d \<Rightarrow>
             (case process_entry infile txtfile makedir start offset i d st of
                Inl e \<Rightarrow> Inl e
              | Inr st' \<Rightarrow> Inr (Next, st'))))"

fun for_records ::
  "bytes \<Rightarrow> bool \<Rightarrow> bytes \<Rightarrow> bool \<Rightarrow> int \<Rightarrow> int \<Rightarrow> nat list \<Rightarrow> fd \<Rightarrow> error \<times> fd + fd" where
  "for_records infile txtfile contents makedir start offset [] st = Inr st"
| "for_records infile txtfile contents makedir start offset (i # is) st =
     (case loop_body infile txtfile contents makedir start offset i st of
        Inl e \<Rightarrow> Inl e
      | Inr (Break, st') \<Rightarrow> Inr st'
      | Inr (Next, st') \<Rightarrow> for_records infile txtfile contents makedir start offset is st')"

text \<open>
  \<open>fill_directory\<close>: \<open>paths\<close> starts as \<open>{0xFFFF: ""}\<close> and \<open>oldpathind\<close> as \<open>0xFFFF\<close>;
  the loop runs over \<open>range(0x1000 * firstclust // 64)\<close>; afterwards one
  \<open>os.chdir("..")\<close> is made for every \<open>/\<close> of \<open>paths[oldpathind]\<close>.
\<close>

definition pop_directory :: "fd \<Rightarrow> error \<times> fd + fd" where
  "pop_directory st =
     (case paths st (oldpathind st) of
        None \<Rightarrow> Inl (KeyError, st)
      | Some p \<Rightarrow> Inr (emits (replicate (count_list p 47) (Chdir (lit ''..''))) st))"

definition record_limit :: "int \<Rightarrow> nat" where
  "record_limit firstclust = nat (0x1000 * firstclust div 64)"

definition fill_directory ::
  "bytes \<Rightarrow> bool \<Rightarrow> bytes \<Rightarrow> int \<Rightarrow> bool \<Rightarrow> int \<Rightarrow> int \<Rightarrow> io \<Rightarrow> error \<times> fd + fd" where
  "fill_directory infile txtfile contents firstclust makedir start offset w =
     (let st = \<lparr>fpos = fpos w, trace = trace w,
                 paths = [0xFFFF \<mapsto> []], oldpathind = 0xFFFF\<rparr>
      in case for_records infile txtfile contents makedir start offset
                [0..<record_limit firstclust] st of
           Inl e \<Rightarrow> Inl e
         | Inr st' \<Rightarrow> pop_directory st')"

section \<open>The table of payload hashes (\<open>write_common_part\<close>, lines 439 to 457)\<close>

text \<open>
  The scan of the hash-table buffer \<open>buf\<close>.  The state of the loop is \<open>numempty\<close> and the
  strings written to the text file so far.  \<open>txtfile.write\<close> takes one argument: the call
  with two arguments at line 444 raises \<open>TypeError\<close>.  The inner loop writes the first 20
  bytes of the entry one at a time, and indexing past the end of the entry raises
  \<open>IndexError\<close>.
\<close>

definition hash_entry :: "bytes \<Rightarrow> ustr list \<Rightarrow> error \<times> ustr list + ustr list" where
  "hash_entry entry w =
     (let w1 = w @ [lit ''Hash (hex):''] @ map (\<lambda>j. hex (uint (entry ! j))) [0..<min 20 (length entry)]
      in if length entry < 20 then Inl (IndexError, w1)
         else if length (slice 20 24 entry) \<noteq> 4 then Inl (StructError, w1)
         else Inr (w1 @ [lit ''\<newline>Entry id:''
                         @ hex (be32 (entry ! 20) (entry ! 21) (entry ! 22) (entry ! 23))]))"

fun hash_entries ::
  "bytes \<Rightarrow> nat list \<Rightarrow> int \<Rightarrow> ustr list \<Rightarrow> error \<times> ustr list + int \<times> ustr list" where
  "hash_entries buf [] numempty w = Inr (numempty, w)"
| "hash_entries buf (i # is) numempty w =
     (let entry = slice (i * 24) (i * 24 + 24) buf in
      if int (count_list entry 0) < 24 then
        (if numempty > 0 then Inl (TypeError, w)
         else case hash_entry entry w of
                Inl e \<Rightarrow> Inl e
              | Inr w' \<Rightarrow> hash_entries buf is numempty w')
      else hash_entries buf is (numempty + 1) w)"

definition hash_table :: "bytes \<Rightarrow> error \<times> ustr list + ustr list" where
  "hash_table buf =
     (case hash_entries buf [0..<length buf div 24] 0 [] of
        Inl e \<Rightarrow> Inl e
      | Inr (numempty, w) \<Rightarrow>
          Inr (w @ [lit ''\<newline>Trailing data (hex):'']
                 @ map (\<lambda>b. hex (uint b)) (drop (length buf - length buf mod 24) buf)
                 @ [lit ''\<newline>'']))"

section \<open>Properties of the cluster-address correction\<close>

lemmas get_cluster_loop_unfold = get_cluster_loop.simps
declare get_cluster_loop.simps [simp del]

lemma get_cluster_loop_small:
  "c < 170 \<Longrightarrow> get_cluster_loop c s r = r"
  by (subst get_cluster_loop_unfold) simp

lemma get_cluster_loop_step:
  "170 \<le> c \<Longrightarrow>
   get_cluster_loop c s r = get_cluster_loop (c div 170) s (r + (c div 170 + 1) * s)"
  by (subst get_cluster_loop_unfold) (simp add: Let_def)

lemma get_cluster_loop_while:
  "get_cluster_loop c s r =
     snd (while (\<lambda>(c, acc). c \<ge> 170)
                (\<lambda>(c, acc). (c div 170, acc + (c div 170 + 1) * s))
                (c, r))"
proof (induction c s r rule: get_cluster_loop.induct)
  case (1 c s r)
  show ?case
  proof (cases "170 \<le> c")
    case True
    then show ?thesis
      using "1.IH" [OF True refl]
      by (subst while_unfold) (simp add: get_cluster_loop_step)
  next
    case False
    then show ?thesis
      by (subst while_unfold) (simp add: get_cluster_loop_small)
  qed
qed

lemma get_cluster_loop_shift:
  "get_cluster_loop c s (r + d) = d + get_cluster_loop c s r"
proof (induction c s r arbitrary: d rule: get_cluster_loop.induct)
  case (1 c s r)
  show ?case
  proof (cases "170 \<le> c")
    case True
    have "get_cluster_loop c s (r + d)
            = get_cluster_loop (c div 170) s (r + (c div 170 + 1) * s + d)"
      by (subst get_cluster_loop_step [OF True]) (simp add: add.assoc add.commute)
    also have "\<dots> = d + get_cluster_loop (c div 170) s (r + (c div 170 + 1) * s)"
      by (rule "1.IH" [OF True refl])
    also have "\<dots> = d + get_cluster_loop c s r"
      by (simp add: get_cluster_loop_step [OF True, of s r])
    finally show ?thesis .
  next
    case False
    then show ?thesis by (simp add: get_cluster_loop_small)
  qed
qed

lemma get_cluster_loop_acc:
  "get_cluster_loop c s r = r + get_cluster_loop c s 0"
  using get_cluster_loop_shift [of c s 0 r] by simp

lemma get_cluster_small: "c < 170 \<Longrightarrow> get_cluster c s = 0"
  by (simp add: get_cluster_def get_cluster_loop_small)

lemma get_cluster_step:
  "170 \<le> c \<Longrightarrow> get_cluster c s = (c div 170 + 1) * s + get_cluster (c div 170) s"
  unfolding get_cluster_def
  by (subst get_cluster_loop_step, assumption, subst get_cluster_loop_acc) simp

lemma get_cluster_nonneg: "0 \<le> s \<Longrightarrow> 0 \<le> get_cluster_loop c s r - r"
proof (induction c s r rule: get_cluster_loop.induct)
  case (1 c s r)
  show ?case
  proof (cases "170 \<le> c")
    case True
    have "0 \<le> (c div 170 + 1) * s"
      using True "1.prems" by (intro mult_nonneg_nonneg) auto
    with "1.IH" [OF True refl "1.prems"] True show ?thesis
      by (simp add: get_cluster_loop_step)
  next
    case False
    then show ?thesis by (simp add: get_cluster_loop_small)
  qed
qed

lemma get_cluster_run_eq:
  "get_cluster_run c s r = Some (get_cluster_loop c s r)"
proof (induction c s r rule: get_cluster_loop.induct)
  case (1 c s r)
  show ?case
  proof (cases "170 \<le> c")
    case True
    with "1.IH" [OF True refl] show ?thesis
      by (subst get_cluster_run.simps) (simp add: get_cluster_loop_step)
  next
    case False
    then show ?thesis
      by (subst get_cluster_run.simps) (simp add: get_cluster_loop_small)
  qed
qed

text \<open>
  Claim C1.  For every logical cluster index \<open>c\<close> (nonnegative or not) and every block
  step \<open>s\<close>, \<open>get_cluster c s\<close> is the value of the specification's literal loop
  (\<open>correction\<close>); the correction is 0 for \<open>0 \<le> c < 170\<close>, and it is \<open>2 * s\<close> at
  \<open>c = 170\<close>.
\<close>

theorem get_cluster_refines_correction:
  "get_cluster c s = correction c s
   \<and> (0 \<le> c \<and> c < 170 \<longrightarrow> get_cluster c s = 0)
   \<and> get_cluster 170 s = 2 * s"
proof (intro conjI impI)
  show "get_cluster c s = correction c s"
    by (simp add: get_cluster_def correction_def get_cluster_loop_while)
  show "get_cluster c s = 0" if "0 \<le> c \<and> c < 170"
    using that by (simp add: get_cluster_small)
  show "get_cluster 170 s = 2 * s"
    by (simp add: get_cluster_step get_cluster_small)
qed

theorem get_cluster_refines_correction_witness:
  "(0::int) \<le> 169 \<and> (169::int) < 170 \<and> get_cluster 169 4096 = 0
   \<and> get_cluster 169 4096 = correction 169 4096"
  using get_cluster_refines_correction [of 169 4096] by simp

text \<open>
  Claim C2 as stated (\<open>get_cluster 340 s = 2 * s\<close> for every \<open>s\<close>) fails: one division
  takes 340 to 2, and the term added is \<open>(2 + 1) * s\<close>.
\<close>

theorem get_cluster_340_counterexample:
  "get_cluster 340 4096 \<noteq> 2 * 4096"
  by (simp add: get_cluster_step get_cluster_small)

text \<open>
  Claim C2, amended.  For every block step \<open>s\<close>, the correction of logical cluster 340 is
  \<open>3 * s\<close>.
\<close>

theorem get_cluster_340:
  "get_cluster 340 s = 3 * s"
  by (simp add: get_cluster_step get_cluster_small)

text \<open>
  Claim C10.  For every logical cluster index and every block step the loop of
  \<open>get_cluster\<close> returns: run with nothing assumed about termination, it yields a value,
  the one \<open>get_cluster\<close> computes; and an iteration, which happens only at \<open>c \<ge> 170\<close>,
  replaces \<open>c\<close> by the strictly smaller, still nonnegative \<open>c div 170\<close>.
\<close>

theorem get_cluster_terminates:
  "get_cluster_run c s 0 = Some (get_cluster c s)
   \<and> (170 \<le> c \<longrightarrow> 0 \<le> c div 170 \<and> c div 170 < c)"
proof (intro conjI impI)
  show "get_cluster_run c s 0 = Some (get_cluster c s)"
    by (simp add: get_cluster_run_eq get_cluster_def)
  show "0 \<le> c div 170" if "170 \<le> c"
    using that by (simp add: pos_imp_zdiv_nonneg_iff)
  show "c div 170 < c" if "170 \<le> c"
    using that by (simp add: int_div_less_self)
qed

theorem get_cluster_terminates_witness:
  "(170::int) \<le> 28900 \<and> (28900::int) div 170 < 28900
   \<and> get_cluster_run 28900 4096 0 = Some (get_cluster 28900 4096)"
  using get_cluster_terminates [of 28900 4096] by simp


section \<open>Properties of the block-reading loop\<close>

lemma chunk_count_step: "0 < len \<Longrightarrow> chunk_count len = Suc (chunk_count (len - 0x1000))"
  unfolding chunk_count_def by (simp add: nat_eq_iff) linarith

lemma chunk_count_done: "len \<le> 0 \<Longrightarrow> chunk_count len = 0"
  unfolding chunk_count_def by simp

lemma chunk_reads_step:
  assumes "0 < len"
  shows "chunk_reads offset adstart clust len =
           (adstart + get_cluster clust offset, min 0x1000 len)
           # chunk_reads offset (adstart + 0x1000) (clust + 1) (len - 0x1000)"
  unfolding chunk_reads_def chunk_count_step [OF assms]
  by (simp add: upt_conv_Cons map_Suc_upt [symmetric] del: upt_Suc
           add: algebra_simps)

lemma chunk_reads_done: "len \<le> 0 \<Longrightarrow> chunk_reads offset adstart clust len = []"
  by (simp add: chunk_reads_def chunk_count_done)

lemma get_cluster_ge0: "0 \<le> offset \<Longrightarrow> 0 \<le> get_cluster clust offset"
  using get_cluster_nonneg [of offset clust 0] by (simp add: get_cluster_def)

lemma read_blocks_general:
  assumes "0 \<le> adstart" "0 \<le> offset"
  shows "\<exists>st'. read_blocks infile offset adstart clust len buf reads st =
            Inr ((buf @ chunk_bytes infile (chunk_reads offset adstart clust len),
                  reads @ chunk_reads offset adstart clust len,
                  len - 0x1000 * int (chunk_count len)), st')
          \<and> trace st' = trace st \<and> io.more st' = io.more st"
  using assms
proof (induction infile offset adstart clust len buf reads st rule: read_blocks.induct)
  case (1 infile offset adstart clust len buf reads st)
  show ?case
  proof (cases "0 < len")
    case False
    then show ?thesis
      by (simp add: chunk_reads_done chunk_count_done chunk_bytes_def)
  next
    case True
    let ?rs = "adstart + get_cluster clust offset"
    have rs: "0 \<le> ?rs" using "1.prems" get_cluster_ge0 [of offset clust] by simp
    then have sk: "seek ?rs st = Inr (st\<lparr>fpos := nat ?rs\<rparr>)"
      by (simp add: seek_def)
    obtain chunk st2 where rd:
      "read infile (nat (min 0x1000 len)) (st\<lparr>fpos := nat ?rs\<rparr>) = (chunk, st2)"
      by (cases "read infile (nat (min 0x1000 len)) (st\<lparr>fpos := nat ?rs\<rparr>)")
    then have chunk: "chunk = take (nat (min 0x1000 len)) (drop (nat ?rs) infile)"
      and tr2: "trace st2 = trace st" "io.more st2 = io.more st"
      by (auto simp: read_def Let_def)
    have "0 \<le> adstart + 0x1000" using "1.prems" by simp
    from "1.IH" [OF True refl sk rd [symmetric] this "1.prems"(2)]
    obtain st' where
      ih: "read_blocks infile offset (adstart + 0x1000) (clust + 1) (len - 0x1000)
             (buf @ chunk) (reads @ [(?rs, min 0x1000 len)]) st2 =
           Inr (((buf @ chunk) @ chunk_bytes infile
                   (chunk_reads offset (adstart + 0x1000) (clust + 1) (len - 0x1000)),
                 (reads @ [(?rs, min 0x1000 len)])
                   @ chunk_reads offset (adstart + 0x1000) (clust + 1) (len - 0x1000),
                 len - 0x1000 - 0x1000 * int (chunk_count (len - 0x1000))), st')"
      and tr: "trace st' = trace st2" "io.more st' = io.more st2"
      by blast
    have "read_blocks infile offset adstart clust len buf reads st =
          read_blocks infile offset (adstart + 0x1000) (clust + 1) (len - 0x1000)
             (buf @ chunk) (reads @ [(?rs, min 0x1000 len)]) st2"
      using True sk rd by (subst read_blocks.simps) (simp add: Let_def)
    then show ?thesis
      using ih tr tr2 True
      by (simp add: chunk_reads_step chunk_count_step chunk_bytes_def chunk)
  qed
qed

lemma chunk_count_exact: "1 \<le> k \<Longrightarrow> chunk_count (0x1000 * k) = nat k"
  by (simp add: chunk_count_def)

lemma chunk_count_short:
  "0 \<le> k \<Longrightarrow> 0 < r \<Longrightarrow> r < 0x1000 \<Longrightarrow> chunk_count (0x1000 * k + r) = nat (k + 1)"
proof -
  assume a: "0 \<le> k" "0 < r" "r < 0x1000"
  have "(0x1000 * k + r + 0xFFF) div 0x1000 = k + (r + 0xFFF) div 0x1000"
    by (simp add: add.assoc)
  moreover have "(r + 0xFFF) div 0x1000 = 1" using a by simp
  ultimately show ?thesis by (simp add: chunk_count_def)
qed

lemma chunk_reads_length: "length (chunk_reads offset adstart clust len) = chunk_count len"
  by (simp add: chunk_reads_def)

lemma chunk_reads_last:
  "0 < chunk_count len \<Longrightarrow>
   snd (last (chunk_reads offset adstart clust len))
     = min 0x1000 (len - 0x1000 * int (chunk_count len - 1))"
  by (simp add: chunk_reads_def last_map last_upt)

lemma chunk_count_bounds:
  "len - 0x1000 * int (chunk_count len) \<le> 0"
  "i < chunk_count len \<Longrightarrow> 0 < len - 0x1000 * int i"
  unfolding chunk_count_def by linarith+

text \<open>
  Claim C3.  For a file record of positive length \<open>len\<close> (with a nonnegative advertised
  start and block step, as the archive's unsigned fields give), the block-reading loop
  returns, having made the reads of \<open>chunk_reads\<close>: read \<open>i\<close> asks for
  \<open>min(4096, len - 4096 * i)\<close> bytes at offset
  \<open>adstart + 4096 * i + get_cluster (clust + i) offset\<close>, and the buffer is what these
  reads return, in order.  Every iteration starts with a positive remaining length and
  the loop ends with a remaining length \<open>\<le> 0\<close>.  If \<open>len = 4096 * k\<close> with \<open>k \<ge> 1\<close>
  there are exactly \<open>k\<close> reads and the last asks for 4096 bytes; if
  \<open>len = 4096 * k + r\<close> with \<open>0 < r < 4096\<close> there are exactly \<open>k + 1\<close> reads and the
  last asks for \<open>r\<close> bytes.
\<close>

theorem read_blocks_chunks:
  assumes "0 \<le> adstart" and "0 \<le> offset" and "0 < len"
  shows "\<exists>buf reads rest st'.
           read_blocks infile offset adstart clust len [] [] st = Inr ((buf, reads, rest), st')
         \<and> buf = chunk_bytes infile reads
         \<and> (\<forall>i < length reads.
               reads ! i = (adstart + 0x1000 * int i + get_cluster (clust + int i) offset,
                            min 0x1000 (len - 0x1000 * int i))
               \<and> 0 < len - 0x1000 * int i)
         \<and> rest = len - 0x1000 * int (length reads) \<and> rest \<le> 0
         \<and> (\<forall>k. 1 \<le> k \<and> len = 0x1000 * k \<longrightarrow>
                int (length reads) = k \<and> snd (last reads) = 0x1000)
         \<and> (\<forall>k r. 0 \<le> k \<and> 0 < r \<and> r < 0x1000 \<and> len = 0x1000 * k + r \<longrightarrow>
                int (length reads) = k + 1 \<and> snd (last reads) = r)"
proof -
  let ?reads = "chunk_reads offset adstart clust len"
  from read_blocks_general [OF assms(1,2), of infile clust len "[]" "[]" st]
  obtain st' where run:
    "read_blocks infile offset adstart clust len [] [] st =
       Inr ((chunk_bytes infile ?reads, ?reads, len - 0x1000 * int (chunk_count len)), st')"
    by auto
  have each: "\<forall>i < length ?reads.
               ?reads ! i = (adstart + 0x1000 * int i + get_cluster (clust + int i) offset,
                             min 0x1000 (len - 0x1000 * int i))
               \<and> 0 < len - 0x1000 * int i"
    using chunk_count_bounds(2) [of _ len] by (simp add: chunk_reads_def)
  have exact: "int (length ?reads) = k \<and> snd (last ?reads) = 0x1000"
    if "1 \<le> k \<and> len = 0x1000 * k" for k
  proof -
    have c: "chunk_count len = nat k" using that by (simp add: chunk_count_exact)
    then have "0 < chunk_count len" using that by simp
    from chunk_reads_last [OF this, of offset adstart clust] c that
    show ?thesis by (simp add: chunk_reads_length int_ops)
  qed
  have short: "int (length ?reads) = k + 1 \<and> snd (last ?reads) = r"
    if "0 \<le> k \<and> 0 < r \<and> r < 0x1000 \<and> len = 0x1000 * k + r" for k r
  proof -
    have c: "chunk_count len = nat (k + 1)" using that by (simp add: chunk_count_short)
    then have "0 < chunk_count len" using that by simp
    from chunk_reads_last [OF this, of offset adstart clust] c that
    show ?thesis by (simp add: chunk_reads_length int_ops)
  qed
  show ?thesis
    using run each exact short chunk_count_bounds(1) [of len]
    by (simp add: chunk_reads_length)
qed

theorem read_blocks_chunks_witness:
  "(0::int) \<le> 0xD000 \<and> (0::int) \<le> 0x1000 \<and> (0::int) < 5000
   \<and> (\<exists>buf rest st'.
         read_blocks (replicate 0x10000 7) 0x1000 0xD000 1 5000 [] []
           \<lparr>fpos = 0, trace = []\<rparr>
         = Inr ((buf, [(0xD000, 0x1000), (0xE000, 904)], rest), st'))"
proof -
  have h: "(0::int) \<le> 0xD000" "(0::int) \<le> 0x1000" "(0::int) < 5000" by simp_all
  from read_blocks_chunks [OF h, of "replicate 0x10000 7" 1 "\<lparr>fpos = 0, trace = []\<rparr>"]
  obtain buf reads rest st' where
    run: "read_blocks (replicate 0x10000 7) 0x1000 0xD000 1 5000 [] []
            \<lparr>fpos = 0, trace = []\<rparr> = Inr ((buf, reads, rest), st')"
    and each: "\<forall>i < length reads.
                 reads ! i = (0xD000 + 0x1000 * int i + get_cluster (1 + int i) 0x1000,
                              min 0x1000 (5000 - 0x1000 * int i))
                 \<and> 0 < 5000 - 0x1000 * int i"
    and short: "\<forall>k r. 0 \<le> k \<and> 0 < r \<and> r < 0x1000 \<and> 5000 = 0x1000 * k + r \<longrightarrow>
                  int (length reads) = k + 1 \<and> snd (last reads) = r"
    by blast
  from short have "(0::int) \<le> 1 \<and> (0::int) < 904 \<and> (904::int) < 0x1000
                     \<and> (5000::int) = 0x1000 * 1 + 904 \<longrightarrow> int (length reads) = 1 + 1"
    by blast
  then have len: "length reads = 2" by simp
  with each have "reads ! 0 = (0xD000, 0x1000)" "reads ! 1 = (0xE000, 904)"
    by (simp_all add: get_cluster_small)
  with len have "reads = [(0xD000, 0x1000), (0xE000, 904)]"
    by (cases reads; cases "tl reads") auto
  with run h show ?thesis by blast
qed

section \<open>Properties of the content type and of the metadata text\<close>

text \<open>
  Claim C5.  For every 32-bit content type, the chain of tests of \<open>write_common_part\<close>
  gives the label of the first test, in the fixed order of \<open>content_type_tests\<close>, whose
  mask intersects the value ("no type" for 0, "unknown" when none does); the content
  type \<open>0x000B0000\<close> is labelled "Theme".
\<close>

theorem content_type_first_match:
  "content_type_text ct = first_match ct \<and> content_type_text 0x000B0000 = ''Theme''"
  by (simp add: content_type_text_def first_match_def content_type_tests_def)

lemma rstrip_append_blanks:
  assumes "set ys \<subseteq> set chars"
  shows "rstrip chars (xs @ ys) = rstrip chars xs"
proof -
  have "dropWhile (\<lambda>c. c \<in> set chars) (rev ys @ rev xs)
          = dropWhile (\<lambda>c. c \<in> set chars) (rev xs)"
    by (rule dropWhile_append2) (use assms in auto)
  then show ?thesis by (simp add: rstrip_def)
qed

lemma strip_blanks_decomp:
  "\<exists>pre suf. s = pre @ strip_blanks s @ suf
      \<and> set pre \<subseteq> set leading_blanks \<and> set suf \<subseteq> set trailing_blanks"
proof -
  let ?T = "\<lambda>c. c \<in> set trailing_blanks" and ?L = "\<lambda>c. c \<in> set leading_blanks"
  let ?r = "rstrip trailing_blanks s"
  have 1: "s = ?r @ rev (takeWhile ?T (rev s))"
    by (metis rev_append rev_rev_ident rstrip_def takeWhile_dropWhile_id)
  have 2: "?r = takeWhile ?L ?r @ strip_blanks s"
    by (simp add: strip_blanks_def lstrip_def)
  have 3: "set (takeWhile ?L ?r) \<subseteq> set leading_blanks"
    by (auto dest: set_takeWhileD)
  have 4: "set (rev (takeWhile ?T (rev s))) \<subseteq> set trailing_blanks"
    by (auto dest: set_takeWhileD)
  from 1 2 have "s = takeWhile ?L ?r @ strip_blanks s @ rev (takeWhile ?T (rev s))"
    by (metis append.assoc)
  with 3 4 show ?thesis by blast
qed

lemma strip_blanks_ends:
  assumes "strip_blanks s \<noteq> []"
  shows "hd (strip_blanks s) \<notin> set leading_blanks"
    and "last (strip_blanks s) \<notin> set trailing_blanks"
proof -
  let ?T = "\<lambda>c. c \<in> set trailing_blanks" and ?L = "\<lambda>c. c \<in> set leading_blanks"
  let ?r = "rstrip trailing_blanks s"
  have sb: "strip_blanks s = dropWhile ?L ?r"
    by (simp add: strip_blanks_def lstrip_def)
  show "hd (strip_blanks s) \<notin> set leading_blanks"
    using assms hd_dropWhile [of ?L ?r] by (simp add: sb)
  have rne: "?r \<noteq> []" using assms sb by auto
  then have dne: "dropWhile ?T (rev s) \<noteq> []" by (simp add: rstrip_def)
  have "last ?r = hd (dropWhile ?T (rev s))"
    using dne by (simp add: rstrip_def last_rev)
  then have lr: "last ?r \<notin> set trailing_blanks"
    using hd_dropWhile [OF dne] by simp
  have "?r = takeWhile ?L ?r @ strip_blanks s"
    by (simp add: sb)
  then have "last ?r = last (strip_blanks s)"
    using assms by (metis last_appendR)
  with lr show "last (strip_blanks s) \<notin> set trailing_blanks" by simp
qed

lemma utf8_decode_ascii:
  "\<forall>b \<in> set bs. unat b < 0x80 \<Longrightarrow> utf8_decode bs = Some (map unat bs)"
  by (induction bs) (simp_all add: utf8_tail_def)

text \<open>
  Claim C9 as stated fails for a leading NUL: the slot that holds \<open>\0A\<close> followed by
  NUL padding is written with the NUL still in front of the \<open>A\<close>.
\<close>

theorem strip_blanks_leading_nul_counterexample:
  "dump_info_slot ([0, 0x41] @ replicate 254 0) (lit ''English'') \<lparr>fpos = 0, trace = []\<rparr>
     = Inr \<lparr>fpos = 256, trace = [TxtWrite (lit ''English:'' @ [0, 65])]\<rparr>"
proof -
  have d: "utf8_decode ([0, 0x41] @ replicate 254 0) = Some ([0, 65] @ replicate 254 0)"
    by (subst utf8_decode_ascii) simp_all
  have "rstrip trailing_blanks ([0, 65] @ replicate 254 0) = rstrip trailing_blanks [0, 65]"
    by (rule rstrip_append_blanks) (simp add: trailing_blanks_def)
  then have s: "strip_blanks ([0, 65] @ replicate 254 0) = [0, 65]"
    by (simp add: strip_blanks_def rstrip_def lstrip_def trailing_blanks_def
                  leading_blanks_def)
  have r: "read ([0, 0x41] @ replicate 254 0) 0x100 \<lparr>fpos = 0, trace = []\<rparr>
             = ([0, 0x41] @ replicate 254 0, \<lparr>fpos = 256, trace = []\<rparr>)"
    by (simp add: read_def)
  show ?thesis
    unfolding dump_info_slot_def r by (simp add: d s emit_def lit_def del: append.simps)
qed

text \<open>
  Claim C9, amended.  For every slot that decodes, the text written is the slot's text
  without a prefix made of the leading blanks (space, tab, newline, carriage return,
  vertical tab, form feed, U+00FF) and without a suffix made of the trailing blanks (the
  same and NUL): NUL is stripped only at the end.  What is left neither begins with a
  leading blank nor ends with a trailing blank, and a slot with nothing left is not
  written.
\<close>

theorem strip_blanks_slot:
  assumes "utf8_decode (fst (read infile 0x100 st)) = Some t"
  shows "set trailing_blanks = {0, 32, 9, 10, 13, 11, 12, 255}
       \<and> set leading_blanks = set trailing_blanks - {0}
       \<and> (\<exists>pre suf. t = pre @ strip_blanks t @ suf
             \<and> set pre \<subseteq> set leading_blanks \<and> set suf \<subseteq> set trailing_blanks)
       \<and> (strip_blanks t \<noteq> [] \<longrightarrow>
             hd (strip_blanks t) \<notin> set leading_blanks
             \<and> last (strip_blanks t) \<notin> set trailing_blanks)
       \<and> dump_info_slot infile l st =
           Inr (if strip_blanks t = [] then snd (read infile 0x100 st)
                else emit (TxtWrite (l @ lit '':'' @ strip_blanks t))
                       (snd (read infile 0x100 st)))"
proof (intro conjI)
  show "set trailing_blanks = {0, 32, 9, 10, 13, 11, 12, 255}"
    by (simp add: trailing_blanks_def)
  show "set leading_blanks = set trailing_blanks - {0}"
    by (auto simp: trailing_blanks_def leading_blanks_def)
  show "\<exists>pre suf. t = pre @ strip_blanks t @ suf
          \<and> set pre \<subseteq> set leading_blanks \<and> set suf \<subseteq> set trailing_blanks"
    by (rule strip_blanks_decomp)
  show "strip_blanks t \<noteq> [] \<longrightarrow>
          hd (strip_blanks t) \<notin> set leading_blanks
          \<and> last (strip_blanks t) \<notin> set trailing_blanks"
    using strip_blanks_ends [of t] by blast
  show "dump_info_slot infile l st =
           Inr (if strip_blanks t = [] then snd (read infile 0x100 st)
                else emit (TxtWrite (l @ lit '':'' @ strip_blanks t))
                       (snd (read infile 0x100 st)))"
    using assms
    by (cases "read infile 0x100 st") (simp add: dump_info_slot_def Let_def)
qed

theorem strip_blanks_slot_witness:
  "utf8_decode (fst (read ([0x20, 0x41] @ replicate 254 0) 0x100 \<lparr>fpos = 0, trace = []\<rparr>))
     = Some ([32, 65] @ replicate 254 0)
   \<and> strip_blanks ([32, 65] @ replicate 254 0) = [65]
   \<and> dump_info_slot ([0x20, 0x41] @ replicate 254 0) (lit ''English'')
        \<lparr>fpos = 0, trace = []\<rparr>
      = Inr \<lparr>fpos = 256, trace = [TxtWrite (lit ''English:A'')]\<rparr>"
proof -
  have r: "read ([0x20, 0x41] @ replicate 254 0) 0x100 \<lparr>fpos = 0, trace = []\<rparr>
             = ([0x20, 0x41] @ replicate 254 0, \<lparr>fpos = 256, trace = []\<rparr>)"
    by (simp add: read_def)
  have d: "utf8_decode (fst (read ([0x20, 0x41] @ replicate 254 0) 0x100
              \<lparr>fpos = 0, trace = []\<rparr>)) = Some ([32, 65] @ replicate 254 0)"
    unfolding r by (subst utf8_decode_ascii) simp_all
  have "rstrip trailing_blanks ([32, 65] @ replicate 254 0) = rstrip trailing_blanks [32, 65]"
    by (rule rstrip_append_blanks) (simp add: trailing_blanks_def)
  then have s: "strip_blanks ([32, 65] @ replicate 254 0) = [65]"
    by (simp add: strip_blanks_def rstrip_def lstrip_def trailing_blanks_def
                  leading_blanks_def)
  from strip_blanks_slot [OF d, of "lit ''English''"]
  have "dump_info_slot ([0x20, 0x41] @ replicate 254 0) (lit ''English'')
          \<lparr>fpos = 0, trace = []\<rparr>
        = Inr (emit (TxtWrite (lit ''English'' @ lit '':'' @ [65]))
                 \<lparr>fpos = 256, trace = []\<rparr>)"
    unfolding r s by simp
  then show ?thesis using d s by (simp add: emit_def lit_def)
qed

section \<open>Evaluating text and ranges\<close>

declare digits.simps [simp del]

lemma digits_small: "n < b \<Longrightarrow> digits b n = [if n < 10 then 48 + n else 87 + n]"
  by (subst digits.simps) (simp add: Let_def)

lemma digits_big:
  "2 \<le> b \<Longrightarrow> b \<le> n \<Longrightarrow>
   digits b n = digits b (n div b) @ [if n mod b < 10 then 48 + n mod b else 87 + n mod b]"
  by (subst digits.simps) (simp add: Let_def)

lemmas eval_text = hex_def str_int_def lit_def digits_small digits_big

lemma upt_eval: "i < j \<Longrightarrow> [i..<j] = i # [i + 1..<j]"
  by (simp add: upt_conv_Cons)

lemma slice_in_zeros:
  "length xs \<le> a \<Longrightarrow> b \<le> length xs + n \<Longrightarrow>
   slice a b (xs @ replicate n 0) = replicate (b - a) 0"
  by (simp add: slice_def min_def)

lemma count_list_replicate: "count_list (replicate n x) x = n"
  by (induction n) simp_all

section \<open>The scan of the hash table on a table with runs of empty records\<close>

lemma hash_entries_all_empty:
  "(\<forall>i \<in> set is. slice (i * 24) (i * 24 + 24) buf = replicate 24 0) \<Longrightarrow>
   hash_entries buf is n w = Inr (n + int (length is), w)"
  by (induction "is" arbitrary: n) (simp_all add: count_list_replicate)

text \<open>
  Claim C4 at two hash tables of 4096 bytes (170 records and 16 trailing bytes), as a
  LIVE or PIRS archive with its directory at \<open>0xC000\<close> has.  The populated record holds
  the digest bytes 1 to 20 and the entry id 1.

  In the first table three empty records come before the populated one: the scan stops
  at the populated record with \<open>TypeError\<close>, raised by the two-argument
  \<open>txtfile.write\<close> that should report the run of three, and nothing of the table has been
  written.  In the second table the populated record comes first and 169 empty records
  follow: the scan ends normally, and its output has the digest, the entry id and the
  trailing bytes, but no entry for the run of 169 empty records.
\<close>

theorem hash_table_empty_runs:
  "hash_table (replicate 72 0
               @ [1, 2, 3, 4, 5, 6, 7, 8, 9, 10, 11, 12, 13, 14, 15, 16, 17, 18, 19, 20,
                  0, 0, 0, 1]
               @ replicate 4000 0) = Inl (TypeError, [])
   \<and> hash_table ([1, 2, 3, 4, 5, 6, 7, 8, 9, 10, 11, 12, 13, 14, 15, 16, 17, 18, 19, 20,
                   0, 0, 0, 1]
                  @ replicate 4072 0)
       = Inr ([lit ''Hash (hex):'']
              @ map lit [''0x1'', ''0x2'', ''0x3'', ''0x4'', ''0x5'', ''0x6'', ''0x7'',
                         ''0x8'', ''0x9'', ''0xa'', ''0xb'', ''0xc'', ''0xd'', ''0xe'',
                         ''0xf'', ''0x10'', ''0x11'', ''0x12'', ''0x13'', ''0x14'']
              @ [lit ''\<newline>Entry id:0x1'', lit ''\<newline>Trailing data (hex):'']
              @ replicate 16 (lit ''0x0'') @ [lit ''\<newline>''])"
proof (intro conjI)
  show "hash_table (replicate 72 0
               @ [1, 2, 3, 4, 5, 6, 7, 8, 9, 10, 11, 12, 13, 14, 15, 16, 17, 18, 19, 20,
                  0, 0, 0, 1]
               @ replicate 4000 0) = Inl (TypeError, [])"
    by (simp add: hash_table_def slice_def count_list_replicate upt_eval)
next
  let ?buf = "[1, 2, 3, 4, 5, 6, 7, 8, 9, 10, 11, 12, 13, 14, 15, 16, 17, 18, 19, 20,
               0, 0, 0, 1] @ replicate 4072 (0::byte)"
  have "slice (i * 24) (i * 24 + 24) ?buf = replicate 24 0" if "i \<in> set [Suc 0..<170]" for i
    using that by (intro slice_in_zeros [THEN trans]) auto
  then have e: "hash_entries ?buf [Suc 0..<170] 0 w = Inr (169, w)" for w
    using hash_entries_all_empty [of "[Suc 0..<170]" ?buf 0 w] by simp
  have "[0..<170] = 0 # [Suc 0..<170]" by (simp add: upt_rec [of 0])
  with e show "hash_table ?buf
       = Inr ([lit ''Hash (hex):'']
              @ map lit [''0x1'', ''0x2'', ''0x3'', ''0x4'', ''0x5'', ''0x6'', ''0x7'',
                         ''0x8'', ''0x9'', ''0xa'', ''0xb'', ''0xc'', ''0xd'', ''0xe'',
                         ''0xf'', ''0x10'', ''0x11'', ''0x12'', ''0x13'', ''0x14'']
              @ [lit ''\<newline>Entry id:0x1'', lit ''\<newline>Trailing data (hex):'']
              @ replicate 16 (lit ''0x0'') @ [lit ''\<newline>''])"
    by (simp add: hash_table_def slice_def hash_entry_def be32_def eval_text)
qed

section \<open>Properties of the directory scan\<close>


lemma slice_take_eq:
  assumes "take m c' = take m c" and "b \<le> m"
  shows "slice a b c' = slice a b c"
proof -
  have 1: "slice a b xs = drop a (take b xs)" for xs :: "'a list"
    by (simp add: slice_def drop_take)
  have 2: "take b xs = take b (take m xs)" for xs :: "'a list"
    using assms(2) by (simp add: min_absorb1)
  show ?thesis
    unfolding 1 by (subst 2, subst (2) 2) (simp add: assms(1))
qed

lemma loop_body_cong:
  "slice (i * 64) ((i + 1) * 64) c' = slice (i * 64) ((i + 1) * 64) c \<Longrightarrow>
   loop_body infile txtfile c' makedir start offset i st
     = loop_body infile txtfile c makedir start offset i st"
  by (simp add: loop_body_def)

lemma for_records_cong:
  "(\<forall>i \<in> set is. slice (i * 64) ((i + 1) * 64) c' = slice (i * 64) ((i + 1) * 64) c) \<Longrightarrow>
   for_records infile txtfile c' makedir start offset is st
     = for_records infile txtfile c makedir start offset is st"
proof (induction "is" arbitrary: st)
  case Nil
  show ?case by simp
next
  case (Cons i "is")
  have lb: "loop_body infile txtfile c' makedir start offset i st
               = loop_body infile txtfile c makedir start offset i st"
    using Cons.prems by (intro loop_body_cong) simp
  have ih: "for_records infile txtfile c' makedir start offset is st'
               = for_records infile txtfile c makedir start offset is st'" for st'
    using Cons.prems by (intro Cons.IH) simp
  show ?case
  proof (cases "loop_body infile txtfile c makedir start offset i st")
    case (Inl e)
    then show ?thesis by (simp add: lb)
  next
    case (Inr p)
    obtain ctl st' where "p = (ctl, st')" by (cases p)
    with Inr show ?thesis by (cases ctl) (simp_all add: lb ih)
  qed
qed

lemma loop_body_sentinel:
  assumes "64 * j + 40 < length c" and "c ! (64 * j + 40) = 0"
  shows "loop_body infile txtfile c makedir start offset j st = Inr (Break, st)"
proof -
  let ?cur = "slice (j * 64) ((j + 1) * 64) c"
  have "40 < length ?cur" using assms(1) by (simp add: slice_def)
  moreover have "?cur ! 40 = c ! (64 * j + 40)"
    using assms(1) by (simp add: slice_def mult.commute)
  ultimately show ?thesis using assms(2) by (simp add: loop_body_def Let_def)
qed

lemma for_records_sentinel:
  assumes "64 * j + 40 < length c" and "c ! (64 * j + 40) = 0"
  shows "for_records infile txtfile c makedir start offset (xs @ j # ys) st
           = for_records infile txtfile c makedir start offset xs st"
proof (induction xs arbitrary: st)
  case Nil
  show ?case by (simp add: loop_body_sentinel [OF assms])
next
  case (Cons x xs)
  show ?case
  proof (cases "loop_body infile txtfile c makedir start offset x st")
    case (Inl e)
    then show ?thesis by simp
  next
    case (Inr p)
    obtain ctl st' where "p = (ctl, st')" by (cases p)
    with Inr show ?thesis by (cases ctl) (simp_all add: Cons.IH)
  qed
qed

lemma fill_directory_reads_limit:
  assumes "take (64 * record_limit firstclust) c' = take (64 * record_limit firstclust) c"
  shows "fill_directory infile txtfile c' firstclust makedir start offset w
           = fill_directory infile txtfile c firstclust makedir start offset w"
proof -
  have "slice (i * 64) ((i + 1) * 64) c' = slice (i * 64) ((i + 1) * 64) c"
    if "i \<in> set [0..<record_limit firstclust]" for i
    using that by (intro slice_take_eq [OF assms]) simp
  then have "for_records infile txtfile c' makedir start offset [0..<record_limit firstclust] st
               = for_records infile txtfile c makedir start offset [0..<record_limit firstclust] st"
    for st
    by (intro for_records_cong) blast
  then show ?thesis
    by (simp add: fill_directory_def)
qed

lemma for_records_stops_at:
  assumes "j < n" and "64 * j + 40 < length c" and "c ! (64 * j + 40) = 0"
  shows "for_records infile txtfile c makedir start offset [0..<n] st
           = for_records infile txtfile c makedir start offset [0..<j] st"
proof -
  have "[0..<n] = [0..<j] @ [j..<n]"
    using assms(1) upt_add_eq_append [of 0 j "n - j"] by simp
  then have "[0..<n] = [0..<j] @ j # [Suc j..<n]"
    using assms(1) by (simp add: upt_conv_Cons)
  then show ?thesis by (simp add: for_records_sentinel [OF assms(2,3)])
qed

lemma fill_directory_after_sentinel:
  assumes "j < record_limit firstclust" and "64 * j + 40 < length c" and "c ! (64 * j + 40) = 0"
    and "take (64 * j + 41) c' = take (64 * j + 41) c"
  shows "fill_directory infile txtfile c' firstclust makedir start offset w
           = fill_directory infile txtfile c firstclust makedir start offset w"
proof -
  have "length (take (64 * j + 41) c') = length (take (64 * j + 41) c)"
    by (simp only: assms(4))
  then have len: "64 * j + 40 < length c'"
    using assms(2) by (simp add: min_def split: if_splits)
  have "c' ! (64 * j + 40) = take (64 * j + 41) c' ! (64 * j + 40)"
    by simp
  also have "\<dots> = c ! (64 * j + 40)"
    by (simp only: assms(4)) simp
  finally have nth: "c' ! (64 * j + 40) = 0"
    using assms(3) by simp
  have "slice (i * 64) ((i + 1) * 64) c' = slice (i * 64) ((i + 1) * 64) c"
    if "i \<in> set [0..<j]" for i
    using that by (intro slice_take_eq [OF assms(4)]) simp
  then have "for_records infile txtfile c' makedir start offset [0..<j] st
               = for_records infile txtfile c makedir start offset [0..<j] st" for st
    by (intro for_records_cong) blast
  then show ?thesis
    by (simp add: fill_directory_def for_records_stops_at [OF assms(1-3)]
                  for_records_stops_at [OF assms(1) len nth])
qed































text \<open>
  Claim C7.  The scan reads at most \<open>0x1000 * firstclust // 64\<close> records: its result is
  the same for any two directory blobs that agree on that many 64-byte records.  And it
  stops at a record whose byte 40 is 0: if record \<open>j\<close>, below the limit, has a zero
  there, the loop over all the records does what the loop over the records before \<open>j\<close>
  does, and the result of the scan is the same for any blob that agrees with this one up
  to that byte, so that nothing else of record \<open>j\<close> and nothing of a later record has
  any effect.
\<close>

theorem fill_directory_scan_limit:
  "int (record_limit firstclust) = max 0 (0x1000 * firstclust div 64)
   \<and> (take (64 * record_limit firstclust) c' = take (64 * record_limit firstclust) c \<longrightarrow>
        fill_directory infile txtfile c' firstclust makedir start offset w
          = fill_directory infile txtfile c firstclust makedir start offset w)
   \<and> (j < record_limit firstclust \<and> 64 * j + 40 < length c \<and> c ! (64 * j + 40) = 0 \<longrightarrow>
        for_records infile txtfile c makedir start offset [0..<record_limit firstclust] st
          = for_records infile txtfile c makedir start offset [0..<j] st
        \<and> (take (64 * j + 41) c'' = take (64 * j + 41) c \<longrightarrow>
             fill_directory infile txtfile c'' firstclust makedir start offset w
               = fill_directory infile txtfile c firstclust makedir start offset w))"
proof (intro conjI impI)
  show "int (record_limit firstclust) = max 0 (0x1000 * firstclust div 64)"
    by (simp add: record_limit_def)
  show "fill_directory infile txtfile c' firstclust makedir start offset w
          = fill_directory infile txtfile c firstclust makedir start offset w"
    if "take (64 * record_limit firstclust) c' = take (64 * record_limit firstclust) c"
    using that by (rule fill_directory_reads_limit)
  assume j: "j < record_limit firstclust \<and> 64 * j + 40 < length c \<and> c ! (64 * j + 40) = 0"
  then show "for_records infile txtfile c makedir start offset [0..<record_limit firstclust] st
          = for_records infile txtfile c makedir start offset [0..<j] st"
    by (intro for_records_stops_at) simp_all
  show "fill_directory infile txtfile c'' firstclust makedir start offset w
          = fill_directory infile txtfile c firstclust makedir start offset w"
    if "take (64 * j + 41) c'' = take (64 * j + 41) c"
    using j that by (intro fill_directory_after_sentinel) simp_all
qed

theorem fill_directory_scan_limit_witness:
  "(let c = ([0x44] @ replicate 39 0
          @ [0x81, 0, 0, 0, 0, 0, 0, 0, 0, 0, 0xFF, 0xFF, 0, 0, 0, 0, 0, 0, 0, 0, 0, 0, 0, 0]) @ replicate 4032 0;
        c' = c @ [1, 2, 3];
        c'' = ([0x44] @ replicate 39 0
          @ [0x81, 0, 0, 0, 0, 0, 0, 0, 0, 0, 0xFF, 0xFF, 0, 0, 0, 0, 0, 0, 0, 0, 0, 0, 0, 0]) @ replicate 41 0 @ replicate 3991 0xFF;
        w = \<lparr>fpos = 0, trace = []\<rparr>
    in take (64 * record_limit 1) c' = take (64 * record_limit 1) c
       \<and> fill_directory [] False c' 1 True 0xC000 0x1000 w
           = fill_directory [] False c 1 True 0xC000 0x1000 w
       \<and> 1 < record_limit 1 \<and> 64 * 1 + 40 < length c \<and> c ! (64 * 1 + 40) = 0
       \<and> take (64 * 1 + 41) c'' = take (64 * 1 + 41) c
       \<and> fill_directory [] False c'' 1 True 0xC000 0x1000 w
           = fill_directory [] False c 1 True 0xC000 0x1000 w)"
proof -
  let ?c = "([0x44] @ replicate 39 0
          @ [0x81, 0, 0, 0, 0, 0, 0, 0, 0, 0, 0xFF, 0xFF, 0, 0, 0, 0, 0, 0, 0, 0, 0, 0, 0, 0]) @ replicate 4032 (0::byte)"
  let ?c' = "?c @ [1, 2, 3]"
  let ?c'' = "([0x44] @ replicate 39 0
          @ [0x81, 0, 0, 0, 0, 0, 0, 0, 0, 0, 0xFF, 0xFF, 0, 0, 0, 0, 0, 0, 0, 0, 0, 0, 0, 0]) @ replicate 41 0 @ replicate 3991 (0xFF::byte)"
  let ?w = "\<lparr>fpos = 0, trace = []\<rparr>"
  have h1: "take (64 * record_limit 1) ?c' = take (64 * record_limit 1) ?c"
    by (simp add: record_limit_def)
  have h2: "1 < record_limit 1 \<and> 64 * 1 + 40 < length ?c \<and> ?c ! (64 * 1 + 40) = 0"
    by (simp add: record_limit_def nth_append)
  have h3: "take (64 * 1 + 41) ?c'' = take (64 * 1 + 41) ?c"
    by simp
  note inst = fill_directory_scan_limit [where firstclust = 1 and c = ?c and j = 1
      and infile = "[]" and txtfile = False and makedir = True and start = "0xC000"
      and offset = "0x1000" and w = ?w]
  from inst [where c' = ?c'] h1
  have r1: "fill_directory [] False ?c' 1 True 0xC000 0x1000 ?w
              = fill_directory [] False ?c 1 True 0xC000 0x1000 ?w"
    by blast
  from inst [where c'' = ?c''] h2 h3
  have r2: "fill_directory [] False ?c'' 1 True 0xC000 0x1000 ?w
              = fill_directory [] False ?c 1 True 0xC000 0x1000 ?w"
    by blast
  show ?thesis
    unfolding Let_def using h1 h2 h3 r1 r2 by (simp only: simp_thms)
qed





end
